theory Spec2Isabelle
  imports Main "HOL-Library.Sublist"
begin

section \<open>Characters and character classes\<close>

text \<open>
  The scanner of \<^verbatim>\<open>analisador_lexico_c.py\<close> works on Python strings. A source character
  is modelled by a \<^typ>\<open>char\<close> standing for the code point of the same number, so the
  development covers texts over the code points 0 to 255. On that range Python's
  \<^verbatim>\<open>str.isspace\<close> (which both \<^verbatim>\<open>\s\<close> and \<^verbatim>\<open>str.strip\<close> use) holds for 9 to 13, 28 to 32,
  133 and 160, and \<^verbatim>\<open>\d\<close> holds for the ASCII digits only.
\<close>

abbreviation nl :: char where "nl \<equiv> CHR 0x0A"
abbreviation tab :: char where "tab \<equiv> CHR 0x09"
abbreviation dquote :: char where "dquote \<equiv> CHR 0x22"
abbreviation squote :: char where "squote \<equiv> CHR 0x27"
abbreviation bslash :: char where "bslash \<equiv> CHR 0x5C"

definition isspace :: "char \<Rightarrow> bool" where
  "isspace c =
     (let n = (of_char c :: nat)
      in (9 \<le> n \<and> n \<le> 13) \<or> (28 \<le> n \<and> n \<le> 32) \<or> n = 133 \<or> n = 160)"

definition isdecimal :: "char \<Rightarrow> bool" where
  "isdecimal c = (let n = (of_char c :: nat) in 48 \<le> n \<and> n \<le> 57)"

datatype item = Car char | Faixa char char

fun item_ok :: "item \<Rightarrow> char \<Rightarrow> bool" where
  "item_ok (Car d) c = (c = d)"
| "item_ok (Faixa lo hi) c = ((of_char lo :: nat) \<le> of_char c \<and> (of_char c :: nat) \<le> of_char hi)"

fun in_class :: "item list \<Rightarrow> char \<Rightarrow> bool" where
  "in_class [] c = False"
| "in_class (i # is) c = (item_ok i c \<or> in_class is c)"

section \<open>The regular expressions of the pattern table\<close>

text \<open>
  The fragment of Python's \<^verbatim>\<open>re\<close> syntax that the table uses: a literal character, \<^verbatim>\<open>.\<close>,
  a class \<^verbatim>\<open>[...]\<close>, a negated class \<^verbatim>\<open>[^...]\<close>, \<^verbatim>\<open>\s\<close>, \<^verbatim>\<open>\d\<close>, sequence, ordered
  alternative, greedy \<^verbatim>\<open>*\<close>, lazy \<^verbatim>\<open>*?\<close>, \<^verbatim>\<open>+\<close> and \<^verbatim>\<open>?\<close>. Groups only delimit.
\<close>

datatype regex =
    RChar char
  | RAny
  | RSet "item list"
  | RNot "item list"
  | RSpace
  | RDigit
  | RSeq regex regex
  | RAlt regex regex
  | RStar regex
  | RLazy regex
  | RPlus regex
  | ROpt regex

fun one :: "(char \<Rightarrow> bool) \<Rightarrow> string \<Rightarrow> string list" where
  "one p [] = []"
| "one p (c # cs) = (if p c then [cs] else [])"

text \<open>
  \<^verbatim>\<open>re\<close> is a backtracking matcher. \<open>star f s\<close> and \<open>lazy f s\<close> list, in the order in which
  backtracking tries them, the rests of \<open>s\<close> after zero or more rounds of a body whose
  rests are given by \<open>f\<close>: the greedy star tries one more round first, the lazy star tries
  to stop first. A round that consumes nothing is not repeated.
\<close>

fun star :: "(string \<Rightarrow> string list) \<Rightarrow> string \<Rightarrow> string list" where
  "star f s = concat (map (\<lambda>r. if length r < length s then star f r else []) (f s)) @ [s]"

fun lazy :: "(string \<Rightarrow> string list) \<Rightarrow> string \<Rightarrow> string list" where
  "lazy f s = s # concat (map (\<lambda>r. if length r < length s then lazy f r else []) (f s))"

declare star.simps [simp del] lazy.simps [simp del]

text \<open>
  \<open>rmatch r s\<close> lists the rests of \<open>s\<close> after every way of matching \<open>r\<close> at the start of
  \<open>s\<close>, in backtracking order; the match that \<^verbatim>\<open>re\<close> reports is the first one.
\<close>

primrec rmatch :: "regex \<Rightarrow> string \<Rightarrow> string list" where
  "rmatch (RChar d) s = one (\<lambda>c. c = d) s"
| "rmatch RAny s = one (\<lambda>c. c \<noteq> nl) s"
| "rmatch (RSet is) s = one (in_class is) s"
| "rmatch (RNot is) s = one (\<lambda>c. \<not> in_class is c) s"
| "rmatch RSpace s = one isspace s"
| "rmatch RDigit s = one isdecimal s"
| "rmatch (RSeq a b) s = concat (map (rmatch b) (rmatch a s))"
| "rmatch (RAlt a b) s = rmatch a s @ rmatch b s"
| "rmatch (RStar a) s = star (rmatch a) s"
| "rmatch (RLazy a) s = lazy (rmatch a) s"
| "rmatch (RPlus a) s = concat (map (star (rmatch a)) (rmatch a s))"
| "rmatch (ROpt a) s = rmatch a s @ [s]"

fun rseq :: "regex \<Rightarrow> regex list \<Rightarrow> regex" where
  "rseq r [] = r"
| "rseq r (x # xs) = RSeq r (rseq x xs)"

fun ralt :: "regex \<Rightarrow> regex list \<Rightarrow> regex" where
  "ralt r [] = r"
| "ralt r (x # xs) = RAlt r (ralt x xs)"

fun rstr :: "string \<Rightarrow> regex" where
  "rstr [] = RStar (RSet [])"
| "rstr (c # cs) = rseq (RChar c) (map RChar cs)"

section \<open>Tokens, errors and the reserved words\<close>

definition PALAVRAS_RESERVADAS :: "string set" where
  "PALAVRAS_RESERVADAS =
     {''auto'', ''break'', ''case'', ''char'', ''const'', ''continue'', ''default'', ''do'',
      ''double'', ''else'', ''enum'', ''extern'', ''float'', ''for'', ''goto'', ''if'',
      ''inline'', ''int'', ''long'', ''register'', ''restrict'', ''return'', ''short'',
      ''signed'', ''sizeof'', ''static'', ''struct'', ''switch'', ''typedef'', ''union'',
      ''unsigned'', ''void'', ''volatile'', ''while'', ''_Bool'', ''_Complex'', ''_Imaginary''}"

datatype Token = Token (tipo: string) (valor: string) (linha: int) (coluna: int)

text \<open>
  \<^verbatim>\<open>ErroLexico(mensagem, linha, coluna)\<close>. The only message the scanner builds is
  \<^verbatim>\<open>"Caractere invalido: " + repr(texto)\<close>; the error value keeps \<open>texto\<close> in its place.
\<close>

datatype ErroLexico = ErroLexico (texto_invalido: string) (erro_linha: int) (erro_coluna: int)

section \<open>The scanner\<close>

record AnalisadorLexico =
  self_pos :: int
  self_linha :: int
  self_coluna :: int

definition inicial :: AnalisadorLexico where
  "inicial = \<lparr>self_pos = 0, self_linha = 1, self_coluna = 1\<rparr>"

definition letra :: "item list" where
  "letra = [Faixa CHR ''A'' CHR ''Z'', Faixa CHR ''a'' CHR ''z'', Car CHR ''_'']"

definition letra_digito :: "item list" where
  "letra_digito =
     [Faixa CHR ''A'' CHR ''Z'', Faixa CHR ''a'' CHR ''z'', Faixa CHR ''0'' CHR ''9'', Car CHR ''_'']"

definition escapado :: "char \<Rightarrow> regex" where
  "escapado q = RAlt (RSeq (RChar bslash) RAny) (RNot [Car q, Car bslash])"

definition especificacao :: "(string \<times> regex) list" where
  "especificacao =
    [(''ESPACO'', RPlus (RSet [Car CHR '' '', Car tab])),
     (''NOVA_LINHA'', RChar nl),
     (''COMENTARIO_ML'',
        rseq (rstr ''/*'') [RLazy (RAlt RAny (RChar nl)), rstr ''*/'']),
     (''COMENTARIO_SL'', rseq (rstr ''//'') [RStar (RNot [Car nl])]),
     (''PREPROCESSADOR'',
        rseq (RChar CHR ''#'') [RStar RSpace, RSet letra, RStar (RSet letra_digito),
                               RStar (RNot [Car nl])]),
     (''STRING'', rseq (RChar dquote) [RStar (escapado dquote), RChar dquote]),
     (''CHAR'', rseq (RChar squote) [escapado squote, RChar squote]),
     (''FLOAT'',
        rseq (RAlt (rseq (RPlus RDigit) [RChar CHR ''.'', RStar RDigit])
                   (rseq (RChar CHR ''.'') [RPlus RDigit]))
             [ROpt (rseq (RSet [Car CHR ''e'', Car CHR ''E''])
                         [ROpt (RSet [Car CHR ''+'', Car CHR ''-'']), RPlus RDigit]),
              ROpt (RSet [Car CHR ''f'', Car CHR ''F'', Car CHR ''l'', Car CHR ''L''])]),
     (''INTEIRO'',
        rseq (RPlus RDigit)
             [RStar (RSet [Car CHR ''u'', Car CHR ''U'', Car CHR ''l'', Car CHR ''L''])]),
     (''ID'', rseq (RSet letra) [RStar (RSet letra_digito)]),
     (''OPERADOR'',
        ralt (rstr ''++'')
             (map rstr [''--'', ''=='', ''!='', ''>='', ''<='', ''->'', ''<<'', ''>>'', ''&&'', ''||'',
                        ''+='', ''-='', ''*='', ''/='', ''%='', ''&='', ''|='', ''^='', ''<<='',
                        ''>>=''])),
     (''OP_SIMBOLO'', RSet (map Car ''+-*/%&|^~!<>=?:'')),
     (''PONTO_VIRGULA'', RChar CHR '';''),
     (''VIRGULA'', RChar CHR '',''),
     (''PAR_ESQ'', RChar CHR ''(''),
     (''PAR_DIR'', RChar CHR '')''),
     (''CHAVE_ESQ'', RChar CHR ''{''),
     (''CHAVE_DIR'', RChar CHR ''}''),
     (''COLCH_ESQ'', RChar CHR ''[''),
     (''COLCH_DIR'', RChar CHR '']''),
     (''PONTO'', RChar CHR ''.''),
     (''INVALIDO'', RAny)]"

text \<open>
  The master expression is the ordered alternative of the named groups. \<open>regex_mestre ps s\<close>
  matches it at the start of \<open>s\<close>: the first group that matches wins, and the result is
  its name (\<^verbatim>\<open>m.lastgroup\<close>), the text it matched and the rest of \<open>s\<close>.
\<close>

fun regex_mestre :: "(string \<times> regex) list \<Rightarrow> string \<Rightarrow> (string \<times> string \<times> string) option" where
  "regex_mestre [] s = None"
| "regex_mestre ((nome, r) # ps) s =
     (case rmatch r s of
        [] \<Rightarrow> regex_mestre ps s
      | rest # _ \<Rightarrow> Some (nome, take (length s - length rest) s, rest))"

text \<open>
  \<^verbatim>\<open>finditer\<close>: the matches from left to right, each search starting where the previous
  match ended; a position where nothing matches is passed over. (A match of the empty
  text is listed and the search moves one character on; no group of the table matches
  the empty text.)
\<close>

fun finditer :: "(string \<times> regex) list \<Rightarrow> string \<Rightarrow> (string \<times> string) list" where
  "finditer ps [] =
     (case regex_mestre ps [] of None \<Rightarrow> [] | Some (g, t, rest) \<Rightarrow> [(g, t)])"
| "finditer ps (c # cs) =
     (case regex_mestre ps (c # cs) of
        None \<Rightarrow> finditer ps cs
      | Some (g, t, rest) \<Rightarrow>
          (if length rest < length (c # cs) then (g, t) # finditer ps rest
           else (g, t) # finditer ps cs))"

text \<open>\<^verbatim>\<open>texto.split("\n")\<close>: the pieces of \<open>texto\<close> between its newlines.\<close>

fun split_nl :: "string \<Rightarrow> string list" where
  "split_nl [] = [[]]"
| "split_nl (c # cs) =
     (if c = nl then [] # split_nl cs
      else (c # hd (split_nl cs)) # tl (split_nl cs))"

definition avancar :: "string \<Rightarrow> AnalisadorLexico \<Rightarrow> AnalisadorLexico" where
  "avancar texto st =
     (let linhas = split_nl texto;
          st1 = (if length linhas = 1
                 then st\<lparr>self_coluna := self_coluna st + int (length texto)\<rparr>
                 else st\<lparr>self_linha := self_linha st + (int (length linhas) - 1),
                         self_coluna := int (length (last linhas)) + 1\<rparr>)
      in st1\<lparr>self_pos := self_pos st1 + int (length texto)\<rparr>)"

text \<open>\<^verbatim>\<open>str.strip()\<close>: the text without its leading and trailing whitespace.\<close>

definition strip :: "string \<Rightarrow> string" where
  "strip s = rev (dropWhile isspace (rev (dropWhile isspace s)))"

text \<open>
  One round of the loop of \<^verbatim>\<open>analisar\<close> on a match of group \<open>grupo\<close> (\<^verbatim>\<open>tipo\<close> in the source) with text \<open>texto\<close>:
  it goes on without a token, yields a token, or raises; and the cursor after it.
\<close>

datatype acao = Continua | Produz Token | Levanta ErroLexico

definition corpo :: "string \<Rightarrow> string \<Rightarrow> AnalisadorLexico \<Rightarrow> acao \<times> AnalisadorLexico" where
  "corpo grupo texto st =
     (if grupo = ''ESPACO'' then (Continua, avancar texto st)
      else if grupo = ''NOVA_LINHA'' then (Continua, avancar texto st)
      else if grupo \<in> {''COMENTARIO_ML'', ''COMENTARIO_SL''} then (Continua, avancar texto st)
      else if grupo = ''PREPROCESSADOR'' then
        (Produz (Token ''PREPROCESSADOR'' (strip texto) (self_linha st) (self_coluna st)),
         avancar texto st)
      else if grupo = ''STRING'' then
        (Produz (Token ''STRING'' texto (self_linha st) (self_coluna st)), avancar texto st)
      else if grupo = ''CHAR'' then
        (Produz (Token ''CHAR'' texto (self_linha st) (self_coluna st)), avancar texto st)
      else if grupo = ''FLOAT'' then
        (Produz (Token ''FLOAT'' texto (self_linha st) (self_coluna st)), avancar texto st)
      else if grupo = ''INTEIRO'' then
        (Produz (Token ''INTEIRO'' texto (self_linha st) (self_coluna st)), avancar texto st)
      else if grupo = ''ID'' then
        (let tipo_token = (if texto \<in> PALAVRAS_RESERVADAS then ''PALAVRA_CHAVE'' else ''ID'')
         in (Produz (Token tipo_token texto (self_linha st) (self_coluna st)), avancar texto st))
      else if grupo = ''OPERADOR'' \<or> grupo = ''OP_SIMBOLO'' then
        (Produz (Token ''OPERADOR'' texto (self_linha st) (self_coluna st)), avancar texto st)
      else if grupo \<in> {''PONTO_VIRGULA'', ''VIRGULA'', ''PAR_ESQ'', ''PAR_DIR'', ''CHAVE_ESQ'',
                       ''CHAVE_DIR'', ''COLCH_ESQ'', ''COLCH_DIR'', ''PONTO''} then
        (Produz (Token grupo texto (self_linha st) (self_coluna st)), avancar texto st)
      else if grupo = ''INVALIDO'' then
        (let st1 = avancar texto st
         in (Levanta (ErroLexico texto (self_linha st1) (self_coluna st1)), st1))
      else (Continua, st))"

text \<open>
  The generator \<^verbatim>\<open>analisar\<close> as the tokens it yields, in order, and how it ends: \<open>None\<close>
  when the matches are exhausted, \<open>Some e\<close> when it raises \<open>e\<close>.
\<close>

fun laco :: "AnalisadorLexico \<Rightarrow> (string \<times> string) list \<Rightarrow> Token list \<times> ErroLexico option" where
  "laco st [] = ([], None)"
| "laco st ((grupo, texto) # ms) =
     (case corpo grupo texto st of
        (Continua, st1) \<Rightarrow> laco st1 ms
      | (Produz token, st1) \<Rightarrow> (case laco st1 ms of (ts, e) \<Rightarrow> (token # ts, e))
      | (Levanta e, st1) \<Rightarrow> ([], Some e))"

definition analisar_de :: "AnalisadorLexico \<Rightarrow> string \<Rightarrow> Token list \<times> ErroLexico option" where
  "analisar_de st codigo = laco st (finditer especificacao codigo)"

definition analisar :: "string \<Rightarrow> Token list \<times> ErroLexico option" where
  "analisar codigo = analisar_de inicial codigo"

text \<open>\<^verbatim>\<open>list(AnalisadorLexico(codigo).analisar())\<close>: all the tokens, or the error raised.\<close>

definition analisar_codigo :: "string \<Rightarrow> ErroLexico + Token list" where
  "analisar_codigo codigo =
     (case analisar codigo of (ts, None) \<Rightarrow> Inr ts | (ts, Some e) \<Rightarrow> Inl e)"

text \<open>
  The same loop, keeping for every round the text it consumed beside what the round
  did; it stops after the round that raises.
\<close>

fun rastro :: "AnalisadorLexico \<Rightarrow> (string \<times> string) list \<Rightarrow> (string \<times> acao) list" where
  "rastro st [] = []"
| "rastro st ((grupo, texto) # ms) =
     (case corpo grupo texto st of
        (Levanta e, st1) \<Rightarrow> [(texto, Levanta e)]
      | (a, st1) \<Rightarrow> (texto, a) # rastro st1 ms)"

section \<open>Notions used to state the properties\<close>

text \<open>\<open>nullable r\<close>: the shape of \<open>r\<close> allows it to match the empty text.\<close>

fun nullable :: "regex \<Rightarrow> bool" where
  "nullable (RSeq a b) = (nullable a \<and> nullable b)"
| "nullable (RAlt a b) = (nullable a \<or> nullable b)"
| "nullable (RStar a) = True"
| "nullable (RLazy a) = True"
| "nullable (RPlus a) = nullable a"
| "nullable (ROpt a) = True"
| "nullable r = False"

text \<open>
  The tokens of a trace; the piece of the source that a round stands for when a token
  counts as its text field and a round without a token as the text it consumed; and
  the same with the whitespace that \<^verbatim>\<open>strip\<close> removed from the match of a
  \<^verbatim>\<open>PREPROCESSADOR\<close> token put back around the token's text.
\<close>

fun produzidos :: "(string \<times> acao) list \<Rightarrow> Token list" where
  "produzidos [] = []"
| "produzidos ((texto, Produz token) # ps) = token # produzidos ps"
| "produzidos ((texto, a) # ps) = produzidos ps"

fun pedaco :: "string \<times> acao \<Rightarrow> string" where
  "pedaco (texto, Produz token) = valor token"
| "pedaco (texto, a) = texto"

fun pedaco_aparado :: "string \<times> acao \<Rightarrow> string" where
  "pedaco_aparado (texto, Produz token) =
     (if tipo token = ''PREPROCESSADOR''
      then takeWhile isspace texto @ valor token @
           rev (takeWhile isspace (rev (dropWhile isspace texto)))
      else valor token)"
| "pedaco_aparado (texto, a) = texto"

definition analisar_rastro :: "string \<Rightarrow> (string \<times> acao) list" where
  "analisar_rastro codigo = rastro inicial (finditer especificacao codigo)"

text \<open>
  \<open>fecha s\<close>: the text \<open>s\<close> after an opening double quote has a closing double quote
  that is not escaped, a backslash escaping the character after it.
\<close>

fun fecha :: "string \<Rightarrow> bool" where
  "fecha [] = False"
| "fecha (c # cs) =
     (if c = dquote then True
      else if c = bslash then (case cs of [] \<Rightarrow> False | d # ds \<Rightarrow> fecha ds)
      else fecha cs)"

section \<open>The cursor\<close>

lemma split_nl_ne: "split_nl t \<noteq> []"
  by (induction t) auto

lemma split_nl_length: "length (split_nl t) = count_list t nl + 1"
  by (induction t) (auto simp: split_nl_ne)

lemma split_nl_single: "nl \<notin> set t \<Longrightarrow> split_nl t = [t]"
  by (induction t) auto

lemma split_nl_last: "last (split_nl t) = rev (takeWhile (\<lambda>c. c \<noteq> nl) (rev t))"
proof (induction t)
  case Nil
  then show ?case by simp
next
  case (Cons c cs)
  show ?case
  proof (cases "nl \<in> set cs")
    case True
    then have "count_list cs nl \<noteq> 0"
      by (simp add: count_list_0_iff)
    then have "1 < length (split_nl cs)"
      by (simp add: split_nl_length)
    then have "tl (split_nl cs) \<noteq> []"
      by (cases "split_nl cs") auto
    moreover have "last (tl (split_nl cs)) = last (split_nl cs)"
      using calculation by (simp add: last_tl)
    moreover have "takeWhile (\<lambda>c. c \<noteq> nl) (rev cs @ [c]) = takeWhile (\<lambda>c. c \<noteq> nl) (rev cs)"
      using True by (intro takeWhile_append1[of nl]) auto
    ultimately show ?thesis using Cons split_nl_ne[of cs] by auto
  next
    case False
    then have "takeWhile (\<lambda>c. c \<noteq> nl) (rev cs @ [c]) = rev cs @ takeWhile (\<lambda>c. c \<noteq> nl) [c]"
      by (intro takeWhile_append2) auto
    with False show ?thesis by (auto simp: split_nl_single)
  qed
qed

text \<open>
  Claim C5. For every matched text \<open>t\<close>, \<^verbatim>\<open>_avancar\<close> adds the length of \<open>t\<close> to the offset;
  when \<open>t\<close> has no newline it adds the length of \<open>t\<close> to the column and leaves the line;
  otherwise it adds the number of newlines of \<open>t\<close> to the line and sets the column to the
  length of what follows the last newline of \<open>t\<close>, plus 1.
\<close>

theorem avancar_cursor:
  "self_pos (avancar t st) = self_pos st + int (length t) \<and>
   (if nl \<notin> set t
    then self_coluna (avancar t st) = self_coluna st + int (length t) \<and>
         self_linha (avancar t st) = self_linha st
    else self_linha (avancar t st) = self_linha st + int (count_list t nl) \<and>
         self_coluna (avancar t st) =
           int (length (rev (takeWhile (\<lambda>c. c \<noteq> nl) (rev t)))) + 1)"
  by (auto simp: avancar_def Let_def split_nl_length split_nl_last split_nl_single
      count_list_0_iff)

theorem avancar_cursor_witness:
  "self_pos (avancar [CHR ''a'', nl, nl, CHR ''b'', CHR ''c''] inicial) = 5 \<and>
   self_linha (avancar [CHR ''a'', nl, nl, CHR ''b'', CHR ''c''] inicial) = 3 \<and>
   self_coluna (avancar [CHR ''a'', nl, nl, CHR ''b'', CHR ''c''] inicial) = 3"
  using avancar_cursor [of "[CHR ''a'', nl, nl, CHR ''b'', CHR ''c'']" inicial]
  by (simp add: inicial_def)

section \<open>Scanning fixed inputs\<close>

text \<open>
  The source names the categories in Portuguese: \<^verbatim>\<open>OPERADOR\<close> is the OPERATOR category,
  \<^verbatim>\<open>INTEIRO\<close> is INTEGER, \<^verbatim>\<open>PALAVRA_CHAVE\<close> is KEYWORD, \<^verbatim>\<open>PREPROCESSADOR\<close> is PREPROCESSOR.
\<close>

text \<open>
  Claim C6. Scanning \<^verbatim>\<open>==\<close> yields exactly one \<^verbatim>\<open>OPERADOR\<close> token with text \<^verbatim>\<open>==\<close>, and
  scanning \<^verbatim>\<open>=\<close> yields exactly one \<^verbatim>\<open>OPERADOR\<close> token with text \<^verbatim>\<open>=\<close>.
\<close>

theorem operador_igualdade:
  "analisar_codigo ''=='' = Inr [Token ''OPERADOR'' ''=='' 1 1] \<and>
   analisar_codigo ''='' = Inr [Token ''OPERADOR'' ''='' 1 1]"
  by code_simp

text \<open>
  Claim C8. Scanning \<^verbatim>\<open>3.14f\<close> yields exactly one \<^verbatim>\<open>FLOAT\<close> token, scanning \<^verbatim>\<open>42UL\<close>
  exactly one \<^verbatim>\<open>INTEIRO\<close> token, and scanning \<^verbatim>\<open>3.\<close> exactly one \<^verbatim>\<open>FLOAT\<close> token.
\<close>

theorem literais_numericos:
  "analisar_codigo ''3.14f'' = Inr [Token ''FLOAT'' ''3.14f'' 1 1] \<and>
   analisar_codigo ''42UL'' = Inr [Token ''INTEIRO'' ''42UL'' 1 1] \<and>
   analisar_codigo ''3.'' = Inr [Token ''FLOAT'' ''3.'' 1 1]"
  by code_simp

text \<open>
  Claim C1 says that the error for an invalid character carries the position of that
  character, line 1 and column 1 for the input \<^verbatim>\<open>@\<close>. The branch for \<^verbatim>\<open>INVALIDO\<close> calls
  \<^verbatim>\<open>_avancar\<close> before it builds the error, unlike every branch that builds a token, so
  the error for \<^verbatim>\<open>@\<close> carries line 1 and column 2.
\<close>

theorem invalido_posicao_apos_avanco:
  "analisar_codigo ''@'' = Inl (ErroLexico ''@'' 1 2)"
  by code_simp

text \<open>
  Claim C2 says that each operator of the list of group \<^verbatim>\<open>OPERADOR\<close>, scanned alone,
  yields one token. The list has \<^verbatim>\<open><<\<close> before \<^verbatim>\<open><<=\<close> and \<^verbatim>\<open>>>\<close> before \<^verbatim>\<open>>>=\<close>, and the
  alternatives are tried in order, so the two three-character operators are never
  matched: each is scanned as two tokens.
\<close>

theorem operador_tres_caracteres_dividido:
  "analisar_codigo ''<<='' =
     Inr [Token ''OPERADOR'' ''<<'' 1 1, Token ''OPERADOR'' ''='' 1 3] \<and>
   analisar_codigo ''>>='' =
     Inr [Token ''OPERADOR'' ''>>'' 1 1, Token ''OPERADOR'' ''='' 1 3]"
  by code_simp

text \<open>The other nineteen operators of the list are scanned as one token each.\<close>

lemma operadores_de_dois_caracteres:
  "list_all (\<lambda>s. analisar_codigo s = Inr [Token ''OPERADOR'' s 1 1])
     [''++'', ''--'', ''=='', ''!='', ''>='', ''<='', ''->'', ''<<'', ''>>'', ''&&'', ''||'',
      ''+='', ''-='', ''*='', ''/='', ''%='', ''&='', ''|='', ''^='']"
  by code_simp

text \<open>
  Claim C4 says that the text of a \<^verbatim>\<open>PREPROCESSADOR\<close> token never contains a newline.
  The group writes \<^verbatim>\<open>\s*\<close> between \<^verbatim>\<open>#\<close> and the name, and \<^verbatim>\<open>\s\<close> matches a newline,
  although the rest of the group (\<^verbatim>\<open>[^\n]*\<close>) stays within the line: a \<^verbatim>\<open>#\<close> at the end
  of a line takes the name on the next line into one token.
\<close>

theorem preprocessador_atravessa_linha:
  "analisar_codigo [CHR ''#'', nl, CHR ''x''] =
     Inr [Token ''PREPROCESSADOR'' [CHR ''#'', nl, CHR ''x''] 1 1]"
  by code_simp

section \<open>Matching: rests, progress and coverage\<close>

lemma one_iff: "r \<in> set (one p s) \<longleftrightarrow> (\<exists>c. s = c # r \<and> p c)"
  by (cases s) auto

lemma star_mem:
  "r \<in> set (star f s) \<longleftrightarrow> r = s \<or> (\<exists>x \<in> set (f s). length x < length s \<and> r \<in> set (star f x))"
  by (subst star.simps) auto

lemma lazy_mem:
  "r \<in> set (lazy f s) \<longleftrightarrow> r = s \<or> (\<exists>x \<in> set (f s). length x < length s \<and> r \<in> set (lazy f x))"
  by (subst lazy.simps) auto

lemma star_inv_aux:
  "(\<forall>x y. P x \<longrightarrow> y \<in> set (f x) \<longrightarrow> P y) \<Longrightarrow> P s \<Longrightarrow> r \<in> set (star f s) \<Longrightarrow> P r"
proof (induction f s rule: star.induct)
  case (1 f s)
  from "1.prems"(3) consider "r = s"
    | x where "x \<in> set (f s)" "length x < length s" "r \<in> set (star f x)"
    by (subst (asm) star_mem) auto
  then show ?case
  proof cases
    case 1
    then show ?thesis using "1.prems"(2) by simp
  next
    case 2
    have "P x" using "1.prems"(1,2) 2(1) by blast
    then show ?thesis using "1.IH" [OF 2(1,2) "1.prems"(1)] 2(3) by blast
  qed
qed

lemma star_inv:
  assumes "\<And>x y. P x \<Longrightarrow> y \<in> set (f x) \<Longrightarrow> P y" and "P s" and "r \<in> set (star f s)"
  shows "P r"
  using star_inv_aux [of P f s r] assms by blast

lemma lazy_inv_aux:
  "(\<forall>x y. P x \<longrightarrow> y \<in> set (f x) \<longrightarrow> P y) \<Longrightarrow> P s \<Longrightarrow> r \<in> set (lazy f s) \<Longrightarrow> P r"
proof (induction f s rule: lazy.induct)
  case (1 f s)
  from "1.prems"(3) consider "r = s"
    | x where "x \<in> set (f s)" "length x < length s" "r \<in> set (lazy f x)"
    by (subst (asm) lazy_mem) auto
  then show ?case
  proof cases
    case 1
    then show ?thesis using "1.prems"(2) by simp
  next
    case 2
    have "P x" using "1.prems"(1,2) 2(1) by blast
    then show ?thesis using "1.IH" [OF 2(1,2) "1.prems"(1)] 2(3) by blast
  qed
qed

lemma lazy_inv:
  assumes "\<And>x y. P x \<Longrightarrow> y \<in> set (f x) \<Longrightarrow> P y" and "P s" and "r \<in> set (lazy f s)"
  shows "P r"
  using lazy_inv_aux [of P f s r] assms by blast

lemma rmatch_suffix: "r \<in> set (rmatch re s) \<Longrightarrow> suffix r s"
proof (induction re arbitrary: s r)
  case (RSeq a b)
  from RSeq.prems obtain x where x: "x \<in> set (rmatch a s)" "r \<in> set (rmatch b x)"
    by auto
  show ?case
    using RSeq.IH(1) [OF x(1)] RSeq.IH(2) [OF x(2)] by (rule suffix_order.trans [rotated])
next
  case (RStar a)
  have "suffix r s"
    by (rule star_inv [where P = "\<lambda>x. suffix x s" and f = "rmatch a" and s = s])
       (use RStar in \<open>auto intro: suffix_order.trans\<close>)
  then show ?case .
next
  case (RLazy a)
  have "suffix r s"
    by (rule lazy_inv [where P = "\<lambda>x. suffix x s" and f = "rmatch a" and s = s])
       (use RLazy in \<open>auto intro: suffix_order.trans\<close>)
  then show ?case .
next
  case (RPlus a)
  from RPlus.prems obtain x where x: "x \<in> set (rmatch a s)" "r \<in> set (star (rmatch a) x)"
    by auto
  have "suffix r x"
    by (rule star_inv [where P = "\<lambda>y. suffix y x" and f = "rmatch a" and s = x])
       (use RPlus.IH x in \<open>auto intro: suffix_order.trans\<close>)
  then show ?case using RPlus.IH [OF x(1)] by (auto intro: suffix_order.trans)
qed (auto simp: one_iff suffix_Cons)

lemma rmatch_consumes:
  "\<not> nullable re \<Longrightarrow> r \<in> set (rmatch re s) \<Longrightarrow> length r < length s"
proof (induction re arbitrary: s r)
  case (RSeq a b)
  from RSeq.prems(2) obtain x where x: "x \<in> set (rmatch a s)" "r \<in> set (rmatch b x)"
    by auto
  have le: "length r \<le> length x" "length x \<le> length s"
    using x rmatch_suffix suffix_length_le by blast+
  show ?case
  proof (cases "nullable a")
    case True
    then have "\<not> nullable b" using RSeq.prems(1) by simp
    then show ?thesis using RSeq.IH(2) x(2) le by fastforce
  next
    case False
    then show ?thesis using RSeq.IH(1) x(1) le by fastforce
  qed
next
  case (RPlus a)
  from RPlus.prems(2) obtain x where x: "x \<in> set (rmatch a s)" "r \<in> set (star (rmatch a) x)"
    by auto
  have "r \<in> set (rmatch (RStar a) x)" using x(2) by simp
  then have "length r \<le> length x"
    using rmatch_suffix suffix_length_le by blast
  then show ?case using RPlus.IH [OF _ x(1)] RPlus.prems(1) by simp
qed (auto simp: one_iff)

lemma regex_mestre_SomeD:
  "regex_mestre ps s = Some (g, t, rest) \<Longrightarrow>
     \<exists>re. (g, re) \<in> set ps \<and> rest \<in> set (rmatch re s) \<and> t = take (length s - length rest) s"
  by (induction ps s rule: regex_mestre.induct) (auto split: list.splits)

lemma regex_mestre_NoneD:
  "regex_mestre ps s = None \<Longrightarrow> (g, re) \<in> set ps \<Longrightarrow> rmatch re s = []"
  by (induction ps s rule: regex_mestre.induct) (auto split: list.splits)

lemma especificacao_nao_vazia: "list_all (\<lambda>(g, re). \<not> nullable re) especificacao"
  by code_simp

lemma especificacao_total: "regex_mestre especificacao (c # cs) \<noteq> None"
proof
  assume n: "regex_mestre especificacao (c # cs) = None"
  have "(''NOVA_LINHA'', RChar nl) \<in> set especificacao" "(''INVALIDO'', RAny) \<in> set especificacao"
    by (simp_all add: especificacao_def)
  then have "rmatch (RChar nl) (c # cs) = []" "rmatch RAny (c # cs) = []"
    using regex_mestre_NoneD [OF n] by blast+
  then show False by (auto split: if_splits)
qed

lemma especificacao_passo:
  "\<exists>g t rest. regex_mestre especificacao (c # cs) = Some (g, t, rest) \<and> t @ rest = c # cs \<and>
     length rest < length (c # cs)"
proof -
  obtain g t rest where m: "regex_mestre especificacao (c # cs) = Some (g, t, rest)"
    using especificacao_total [of c cs] by (cases "regex_mestre especificacao (c # cs)") auto
  then obtain re where re: "(g, re) \<in> set especificacao" "rest \<in> set (rmatch re (c # cs))"
      "t = take (length (c # cs) - length rest) (c # cs)"
    using regex_mestre_SomeD by blast
  have "\<not> nullable re"
    using especificacao_nao_vazia re(1) by (auto simp: list_all_iff)
  then have lt: "length rest < length (c # cs)"
    using rmatch_consumes re(2) by blast
  have "suffix rest (c # cs)" using rmatch_suffix re(2) by blast
  then obtain p where p: "c # cs = p @ rest" by (auto simp: suffix_def)
  then have "t = p" using re(3) by simp
  then show ?thesis using m p lt by auto
qed

lemma finditer_concat: "concat (map snd (finditer especificacao s)) = s"
proof (induction s rule: length_induct)
  case (1 s)
  show ?case
  proof (cases s)
    case Nil
    then show ?thesis by (simp add: especificacao_def)
  next
    case (Cons c cs)
    obtain g t rest where m: "regex_mestre especificacao (c # cs) = Some (g, t, rest)"
        "t @ rest = c # cs" "length rest < length (c # cs)"
      using especificacao_passo by blast
    then have "concat (map snd (finditer especificacao rest)) = rest"
      using 1 Cons by simp
    then show ?thesis using m Cons by simp
  qed
qed

section \<open>The trace of a scan\<close>

lemma strip_partes:
  "takeWhile isspace t @ strip t @ rev (takeWhile isspace (rev (dropWhile isspace t))) = t"
proof -
  have "rev (dropWhile isspace (rev u)) @ rev (takeWhile isspace (rev u)) = u" for u
    by (metis rev_append rev_rev_ident takeWhile_dropWhile_id)
  then show ?thesis
    by (simp add: strip_def)
qed

lemma corpo_casos:
  "fst (corpo g t st) = Continua \<or>
   fst (corpo g t st) = Produz (Token ''PREPROCESSADOR'' (strip t) (self_linha st) (self_coluna st)) \<or>
   (\<exists>k. k \<noteq> ''PREPROCESSADOR'' \<and> fst (corpo g t st) = Produz (Token k t (self_linha st) (self_coluna st))) \<or>
   (\<exists>e. fst (corpo g t st) = Levanta e)"
  unfolding corpo_def Let_def by simp

lemma corpo_pedaco: "corpo g t st = (a, st1) \<Longrightarrow> pedaco_aparado (t, a) = t"
  using strip_partes [of t] corpo_casos [of g t st]
  by auto

lemma laco_produzidos: "fst (laco st ms) = produzidos (rastro st ms)"
proof (induction ms arbitrary: st)
  case Nil
  then show ?case by simp
next
  case (Cons m ms)
  obtain g t where m: "m = (g, t)" by (cases m)
  obtain a st1 where c: "corpo g t st = (a, st1)" by (cases "corpo g t st")
  show ?case using Cons [of st1] m c
    by (cases a) (auto split: prod.splits)
qed

lemma laco_pedacos:
  "snd (laco st ms) = None \<Longrightarrow> map pedaco_aparado (rastro st ms) = map snd ms"
proof (induction ms arbitrary: st)
  case Nil
  then show ?case by simp
next
  case (Cons m ms)
  obtain g t where m: "m = (g, t)" by (cases m)
  obtain a st1 where c: "corpo g t st = (a, st1)" by (cases "corpo g t st")
  have p: "pedaco_aparado (t, a) = t" using corpo_pedaco c by blast
  show ?case using Cons.IH [of st1] Cons.prems m c p
    by (cases a) (auto split: prod.splits)
qed

text \<open>
  Claim C3 says that the text fields of the tokens and the runs consumed without a
  token, concatenated in source order, give back the source. The text field of a
  \<^verbatim>\<open>PREPROCESSADOR\<close> token is \<^verbatim>\<open>texto.strip()\<close>, so whitespace at the end of a directive
  line is in no token and in no discarded run.
\<close>

theorem reconstrucao_perde_espaco:
  "snd (analisar ''#a '') = None \<and>
   produzidos (analisar_rastro ''#a '') = [Token ''PREPROCESSADOR'' ''#a'' 1 1] \<and>
   concat (map pedaco (analisar_rastro ''#a '')) = ''#a'' \<and>
   concat (map pedaco (analisar_rastro ''#a '')) \<noteq> ''#a ''"
  by code_simp

text \<open>
  Claim C3, amended. For every input on which scanning completes without error, the
  text fields of the tokens, with the whitespace trimmed from the match of each
  \<^verbatim>\<open>PREPROCESSADOR\<close> token put back around its text, and the runs consumed without a
  token, concatenated in source order, are the source; the tokens of the trace are
  the tokens that \<^verbatim>\<open>analisar\<close> yields.
\<close>

theorem reconstrucao_com_espaco_aparado:
  assumes "snd (analisar codigo) = None"
  shows "concat (map pedaco_aparado (analisar_rastro codigo)) = codigo \<and>
         produzidos (analisar_rastro codigo) = fst (analisar codigo)"
  using assms laco_pedacos [of inicial "finditer especificacao codigo"]
    laco_produzidos [of inicial "finditer especificacao codigo"] finditer_concat [of codigo]
  by (simp add: analisar_def analisar_de_def analisar_rastro_def)

theorem reconstrucao_com_espaco_aparado_witness:
  "snd (analisar ''#a  x'') = None \<and>
   concat (map pedaco_aparado (analisar_rastro ''#a  x'')) = ''#a  x'' \<and>
   produzidos (analisar_rastro ''#a  x'') = fst (analisar ''#a  x'')"
proof -
  have h: "snd (analisar ''#a  x'') = None" by code_simp
  show ?thesis by (rule conjI [OF h reconstrucao_com_espaco_aparado [OF h]])
qed

section \<open>Identifiers and reserved words\<close>

lemma letra_inicio:
  assumes "in_class letra c"
  shows "c \<noteq> CHR '' ''" "c \<noteq> tab" "c \<noteq> nl" "c \<noteq> CHR ''/''" "c \<noteq> CHR ''#''" "c \<noteq> dquote"
    "c \<noteq> squote" "\<not> isdecimal c" "c \<noteq> CHR ''.''"
  using assms by (auto simp: letra_def isdecimal_def)

lemma star_classe:
  assumes "list_all (in_class is) cs" and "rest = [] \<or> \<not> in_class is (hd rest)"
  shows "\<exists>more. star (rmatch (RSet is)) (cs @ rest) = rest # more"
  using assms(1)
proof (induction cs)
  case Nil
  have "rmatch (RSet is) rest = []" using assms(2) by (cases rest) auto
  then show ?case by (subst star.simps) simp
next
  case (Cons x xs)
  from Cons.prems have "list_all (in_class is) xs" by simp
  from Cons.IH [OF this] obtain more where "star (rmatch (RSet is)) (xs @ rest) = rest # more"
    by blast
  moreover have "rmatch (RSet is) ((x # xs) @ rest) = [xs @ rest]" using Cons.prems by simp
  ultimately show ?case by (subst star.simps) simp
qed

lemma mestre_identificador:
  assumes "in_class letra c" and "list_all (in_class letra_digito) cs"
    and "rest = [] \<or> \<not> in_class letra_digito (hd rest)"
  shows "regex_mestre especificacao (c # cs @ rest) = Some (''ID'', c # cs, rest)"
proof -
  obtain more where m: "star (rmatch (RSet letra_digito)) (cs @ rest) = rest # more"
    using star_classe [OF assms(2,3)] by blast
  show ?thesis
    by (simp add: especificacao_def letra_inicio [OF assms(1)] assms(1) m)
qed

text \<open>
  Claim C7. Wherever the scanner stands before a letter or underscore followed by
  letters, digits and underscores (and the text after them does not go on with one),
  the group \<^verbatim>\<open>ID\<close> matches exactly these characters; the token yielded has category
  \<^verbatim>\<open>PALAVRA_CHAVE\<close> if the matched text is in \<^verbatim>\<open>PALAVRAS_RESERVADAS\<close> and \<^verbatim>\<open>ID\<close> otherwise,
  its text is the matched text unchanged, and scanning goes on after it.
\<close>

theorem identificador_ou_palavra_chave:
  assumes "in_class letra c" and "list_all (in_class letra_digito) cs"
    and "rest = [] \<or> \<not> in_class letra_digito (hd rest)"
  shows "analisar_de st (c # cs @ rest) =
     (case analisar_de (avancar (c # cs) st) rest of
        (ts, e) \<Rightarrow>
          (Token (if c # cs \<in> PALAVRAS_RESERVADAS then ''PALAVRA_CHAVE'' else ''ID'') (c # cs)
             (self_linha st) (self_coluna st) # ts, e))"
  by (simp add: analisar_de_def corpo_def mestre_identificador [OF assms] split: prod.splits)


theorem identificador_ou_palavra_chave_witness:
  "in_class letra CHR ''i'' \<and> list_all (in_class letra_digito) ''nt'' \<and>
   ('' x1'' = [] \<or> \<not> in_class letra_digito (hd '' x1'')) \<and>
   analisar_de inicial (CHR ''i'' # ''nt'' @ '' x1'') =
     (case analisar_de (avancar ''int'' inicial) '' x1'' of
        (ts, e) \<Rightarrow> (Token ''PALAVRA_CHAVE'' ''int'' 1 1 # ts, e))"
proof -
  have h1: "in_class letra CHR ''i''" by (simp add: letra_def)
  have h2: "list_all (in_class letra_digito) ''nt''" by (simp add: letra_digito_def)
  have h3: "'' x1'' = [] \<or> \<not> in_class letra_digito (hd '' x1'')"
    by (simp add: letra_digito_def)
  have k: "''int'' \<in> PALAVRAS_RESERVADAS" by (simp add: PALAVRAS_RESERVADAS_def)
  show ?thesis
    using identificador_ou_palavra_chave [OF h1 h2 h3, of inicial] h1 h2 h3 k
    by (simp add: inicial_def)
qed

section \<open>Literals and comments that are not closed\<close>

lemma escapado_fecha:
  "\<not> fecha x \<Longrightarrow> y \<in> set (rmatch (escapado dquote) x) \<Longrightarrow> \<not> fecha y"
  by (cases x) (auto simp: escapado_def one_iff split: if_splits)

lemma string_aberta:
  assumes "\<not> fecha rest"
  shows "concat (map (rmatch (RChar dquote)) (star (rmatch (escapado dquote)) rest)) = []"
proof -
  have nf: "\<not> fecha r" if "r \<in> set (star (rmatch (escapado dquote)) rest)" for r
    by (rule star_inv [where P = "\<lambda>x. \<not> fecha x" and f = "rmatch (escapado dquote)" and s = rest])
       (use assms that escapado_fecha in auto)
  have "rmatch (RChar dquote) r = []" if "r \<in> set (star (rmatch (escapado dquote)) rest)" for r
    using nf [OF that] by (cases r) (auto split: if_splits)
  then show ?thesis by simp
qed

lemma mestre_string_aberta:
  assumes "\<not> fecha rest"
  shows "regex_mestre especificacao (dquote # rest) = Some (''INVALIDO'', [dquote], rest)"
  by (simp add: especificacao_def isdecimal_def isspace_def letra_def letra_digito_def
      string_aberta [OF assms])

text \<open>
  Claim C9. For every input that starts with a double quote and has no later closing
  unescaped double quote, the quote matches only the group \<^verbatim>\<open>INVALIDO\<close>: the scan yields
  no token and raises the error at once (with the position after the quote).
\<close>

theorem string_sem_fecho:
  assumes "\<not> fecha rest"
  shows "analisar (dquote # rest) = ([], Some (ErroLexico [dquote] 1 2))"
  by (simp add: analisar_def analisar_de_def corpo_def avancar_def inicial_def
      mestre_string_aberta [OF assms])

theorem string_sem_fecho_witness:
  "\<not> fecha [CHR ''a'', bslash, dquote, CHR ''b''] \<and>
   analisar (dquote # [CHR ''a'', bslash, dquote, CHR ''b'']) = ([], Some (ErroLexico [dquote] 1 2))"
proof -
  have h: "\<not> fecha [CHR ''a'', bslash, dquote, CHR ''b'']" by simp
  show ?thesis by (rule conjI [OF h string_sem_fecho [OF h]])
qed

lemma comentario_aberto:
  assumes "\<not> sublist ''*/'' (CHR ''/'' # CHR ''*'' # rest)"
  shows "concat (map (rmatch (RSeq (RChar CHR ''*'') (RChar CHR ''/'')))
           (lazy (rmatch (RAlt RAny (RChar nl))) rest)) = []"
proof -
  have suf: "suffix r rest" if "r \<in> set (lazy (rmatch (RAlt RAny (RChar nl))) rest)" for r
    using rmatch_suffix [of r "RLazy (RAlt RAny (RChar nl))" rest] that by simp
  have "rmatch (RSeq (RChar CHR ''*'') (RChar CHR ''/'')) r = []"
    if mem: "r \<in> set (lazy (rmatch (RAlt RAny (RChar nl))) rest)" for r
  proof (rule ccontr)
    assume "rmatch (RSeq (RChar CHR ''*'') (RChar CHR ''/'')) r \<noteq> []"
    then obtain t where "r = CHR ''*'' # CHR ''/'' # t"
      by (cases r; cases "tl r") (auto split: if_splits)
    moreover obtain p where "rest = p @ r" using suf [OF mem] by (auto simp: suffix_def)
    ultimately have "CHR ''/'' # CHR ''*'' # rest = (CHR ''/'' # CHR ''*'' # p) @ ''*/'' @ t"
      by simp
    then have "sublist ''*/'' (CHR ''/'' # CHR ''*'' # rest)"
      unfolding sublist_def by blast
    then show False using assms by simp
  qed
  then show ?thesis by simp
qed

lemma mestre_barra:
  assumes "\<not> sublist ''*/'' (CHR ''/'' # CHR ''*'' # rest)"
  shows "regex_mestre especificacao (CHR ''/'' # CHR ''*'' # rest) =
           Some (''OP_SIMBOLO'', ''/'', CHR ''*'' # rest)"
  by (simp add: especificacao_def isdecimal_def isspace_def letra_def letra_digito_def
      comentario_aberto [OF assms])

lemma mestre_asterisco_igual:
  "regex_mestre especificacao (CHR ''*'' # CHR ''='' # xs) = Some (''OPERADOR'', ''*='', xs)"
  by (simp add: especificacao_def isdecimal_def isspace_def letra_def letra_digito_def)

lemma mestre_asterisco:
  "take 1 rest \<noteq> ''='' \<Longrightarrow>
   regex_mestre especificacao (CHR ''*'' # rest) = Some (''OP_SIMBOLO'', ''*'', rest)"
  by (cases rest)
     (simp_all add: especificacao_def isdecimal_def isspace_def letra_def letra_digito_def)

text \<open>
  Claim C10 says that for every input that starts with \<^verbatim>\<open>/*\<close> and has no \<^verbatim>\<open>*/\<close> the first
  two tokens are the operators \<^verbatim>\<open>/\<close> and \<^verbatim>\<open>*\<close>. When \<^verbatim>\<open>=\<close> follows the \<^verbatim>\<open>*\<close>, the group
  \<^verbatim>\<open>OPERADOR\<close> matches \<^verbatim>\<open>*=\<close> before \<^verbatim>\<open>OP_SIMBOLO\<close> is tried.
\<close>

theorem comentario_sem_fecho_asterisco_igual:
  "\<not> sublist ''*/'' ''/*='' \<and>
   analisar ''/*='' = ([Token ''OPERADOR'' ''/'' 1 1, Token ''OPERADOR'' ''*='' 1 2], None)"
  by code_simp

text \<open>
  Claim C10, amended. For every input that starts with \<^verbatim>\<open>/*\<close> and has no \<^verbatim>\<open>*/\<close>, the scan
  neither raises at the opener nor discards the text: the first token is the operator
  \<^verbatim>\<open>/\<close> at line 1, column 1, the second is the operator \<^verbatim>\<open>*\<close> at column 2, or the operator
  \<^verbatim>\<open>*=\<close> when the character after \<^verbatim>\<open>/*\<close> is \<^verbatim>\<open>=\<close>, and scanning goes on with the rest of
  the input.
\<close>

theorem comentario_sem_fecho_operadores:
  assumes "\<not> sublist ''*/'' (CHR ''/'' # CHR ''*'' # rest)"
  shows "analisar (CHR ''/'' # CHR ''*'' # rest) =
     (if take 1 rest = ''=''
      then (case analisar_de \<lparr>self_pos = 3, self_linha = 1, self_coluna = 4\<rparr> (drop 1 rest) of
              (ts, e) \<Rightarrow>
                (Token ''OPERADOR'' ''/'' 1 1 # Token ''OPERADOR'' ''*='' 1 2 # ts, e))
      else (case analisar_de \<lparr>self_pos = 2, self_linha = 1, self_coluna = 3\<rparr> rest of
              (ts, e) \<Rightarrow>
                (Token ''OPERADOR'' ''/'' 1 1 # Token ''OPERADOR'' ''*'' 1 2 # ts, e)))"
proof (cases "take 1 rest = ''=''")
  case True
  then obtain xs where r: "rest = CHR ''='' # xs" by (cases rest) auto
  show ?thesis
    using r mestre_barra [OF assms]
    by (simp add: analisar_def analisar_de_def corpo_def avancar_def inicial_def
        mestre_asterisco_igual split: prod.splits)
next
  case False
  show ?thesis
    using False
    by (simp add: analisar_def analisar_de_def corpo_def avancar_def inicial_def
        mestre_barra [OF assms] mestre_asterisco [OF False] split: prod.splits)
qed


theorem comentario_sem_fecho_operadores_witness:
  "\<not> sublist ''*/'' (CHR ''/'' # CHR ''*'' # '' x'') \<and>
   analisar (CHR ''/'' # CHR ''*'' # '' x'') =
     (case analisar_de \<lparr>self_pos = 2, self_linha = 1, self_coluna = 3\<rparr> '' x'' of
        (ts, e) \<Rightarrow> (Token ''OPERADOR'' ''/'' 1 1 # Token ''OPERADOR'' ''*'' 1 2 # ts, e))"
proof -
  have h: "\<not> sublist ''*/'' (CHR ''/'' # CHR ''*'' # '' x'')" by code_simp
  show ?thesis
    using comentario_sem_fecho_operadores [OF h] h by simp
qed

end
